theory Spec2Isabelle
  imports Complex_Main
begin

section \<open>Binomial lattice pricing and the finite-difference solver\<close>

text \<open>
  The Python sources compute with floating-point numbers; the embedding idealises them
  as the reals, so that rounding, overflow to \<open>inf\<close> and the loss of small terms are
  outside of what is stated here. Everything else follows the source: Python's
  exceptions are values of the type \<open>error\<close>, the value \<open>None\<close> that \<open>payoff\<close> returns
  when no branch of its \<open>if\<close>/\<open>elif\<close> chain matches is \<open>None\<close> of \<open>real option\<close>,
  the option type is the string the source compares, and the step count is a natural
  number (the number of iterations of \<open>range(steps)\<close>).
\<close>

subsection \<open>Errors and list indexing\<close>

datatype error =
    ZeroDivisionError
  | TypeError
  | IndexError
  | UnboundLocalError
  | NanValue

text \<open>
  \<open>NanValue\<close> is not a Python exception: \<open>np.sqrt\<close> of a negative number is \<open>nan\<close>
  (with a warning), which the reals do not have. The model stops there. It arises only
  for a negative time horizon.
\<close>

text \<open>Python's \<open>xs[i]\<close>: a negative index counts from the end, out of range raises.\<close>

definition py_get :: "'a list \<Rightarrow> int \<Rightarrow> error + 'a" where
  "py_get xs i =
     (if 0 \<le> i \<and> i < int (length xs) then Inr (xs ! nat i)
      else if i < 0 \<and> - int (length xs) \<le> i then Inr (xs ! nat (int (length xs) + i))
      else Inl IndexError)"

subsection \<open>Lattice factors and the price tree (Binomial Method)\<close>

text \<open>
  The script passes Python numbers, so \<open>T/steps\<close> raises \<open>ZeroDivisionError\<close> when
  \<open>steps\<close> is 0.
\<close>

definition find_dt_u_d :: "real \<Rightarrow> real \<Rightarrow> real \<Rightarrow> nat \<Rightarrow> error + (real \<times> real \<times> real)" where
  "find_dt_u_d r sigma T steps =
     (if steps = 0 then Inl ZeroDivisionError
      else
        let dt = T / real steps;
            A = exp ((sigma ^ 2) * dt) - 1;
            B = exp (r * dt)
        in if A < 0 then Inl NanValue
           else Inr (dt, B * (1 + sqrt A), B * (1 - sqrt A)))"

definition produce_tree :: "real \<Rightarrow> real \<Rightarrow> real \<Rightarrow> real \<Rightarrow> nat \<Rightarrow> error + real list list" where
  "produce_tree S_0 r sigma T steps =
     (case find_dt_u_d r sigma T steps of
        Inl e \<Rightarrow> Inl e
      | Inr (dt, u, d) \<Rightarrow>
          Inr (map (\<lambda>i. map (\<lambda>j. S_0 * (u ^ j) * (d ^ (i - j))) [0..<i + 1]) [0..<steps + 1]))"

subsection \<open>The payoff function\<close>

definition payoff :: "real \<Rightarrow> real \<Rightarrow> string \<Rightarrow> real option" where
  "payoff S E option_type =
     (if option_type = ''call'' then
        (if (S - E) > 0 then Some (S - E) else Some 0)
      else if option_type = ''put'' then
        (if (E - S) > 0 then Some (E - S) else Some 0)
      else if option_type = ''cash_or_nothing_call'' then
        (if (S - E) > 0 then Some 10 else Some 0)
      else if option_type = ''cash_or_nothing_put'' then
        (if (E - S) > 0 then Some 10 else Some 0)
      else None)"

text \<open>The four option types the payoff function knows.\<close>

definition recognized :: "string \<Rightarrow> bool" where
  "recognized option_type =
     (option_type = ''call'' \<or> option_type = ''put'' \<or>
      option_type = ''cash_or_nothing_call'' \<or> option_type = ''cash_or_nothing_put'')"

text \<open>
  The payoff as the specification words it (section 4.3): \<open>max(S - E, 0)\<close> for a call,
  \<open>max(E - S, 0)\<close> for a put, the cash amount 10 or nothing for the two digital kinds.
\<close>

definition spec_payoff :: "real \<Rightarrow> real \<Rightarrow> string \<Rightarrow> real" where
  "spec_payoff S E option_type =
     (if option_type = ''call'' then max (S - E) 0
      else if option_type = ''put'' then max (E - S) 0
      else if option_type = ''cash_or_nothing_call'' then (if S > E then 10 else 0)
      else if option_type = ''cash_or_nothing_put'' then (if E > S then 10 else 0)
      else 0)"

subsection \<open>European backward induction\<close>

text \<open>
  The inner loop builds \<open>new_row\<close> from \<open>payoff_row\<close>; adding \<open>None\<close> raises a
  \<open>TypeError\<close>. A row of fewer than two values gives the empty row.
\<close>

text \<open>The discounted mean of two successor values, \<open>discount*(0.5)*(x + y)\<close>.\<close>

definition hold_value :: "real \<Rightarrow> real \<Rightarrow> real \<Rightarrow> real" where
  "hold_value discount x y = discount * 0.5 * (x + y)"

fun euro_new_row :: "real \<Rightarrow> real option list \<Rightarrow> error + real option list" where
  "euro_new_row discount (a # b # rest) =
     (case (a, b) of
        (Some x, Some y) \<Rightarrow>
          (case euro_new_row discount (b # rest) of
             Inl e \<Rightarrow> Inl e
           | Inr row \<Rightarrow> Inr (Some (hold_value discount x y) # row))
      | _ \<Rightarrow> Inl TypeError)"
| "euro_new_row discount _ = Inr []"

text \<open>The outer loop \<open>for i in range(steps)\<close>.\<close>

fun euro_loop :: "nat \<Rightarrow> real \<Rightarrow> real option list \<Rightarrow> error + real option list" where
  "euro_loop 0 discount payoff_row = Inr payoff_row"
| "euro_loop (Suc n) discount payoff_row =
     (case euro_new_row discount payoff_row of
        Inl e \<Rightarrow> Inl e
      | Inr new_row \<Rightarrow> euro_loop n discount new_row)"

definition find_euro_option_value ::
  "real \<Rightarrow> real \<Rightarrow> real \<Rightarrow> real \<Rightarrow> nat \<Rightarrow> real \<Rightarrow> string \<Rightarrow> error + real option" where
  "find_euro_option_value S_0 r sigma T steps E option_type =
     (case find_dt_u_d r sigma T steps of
        Inl e \<Rightarrow> Inl e
      | Inr (dt, u, d) \<Rightarrow>
     (case produce_tree S_0 r sigma T steps of
        Inl e \<Rightarrow> Inl e
      | Inr tree \<Rightarrow>
     (case py_get tree (int (length tree) - 1) of
        Inl e \<Rightarrow> Inl e
      | Inr final_row \<Rightarrow>
     (case euro_loop steps (exp (- r * dt))
             (map (\<lambda>value. payoff value E option_type) final_row) of
        Inl e \<Rightarrow> Inl e
      | Inr payoff_row \<Rightarrow> py_get payoff_row 0))))"

subsection \<open>American backward induction\<close>

text \<open>
  The inner loop also reads the stock price \<open>tree_row[j]\<close>, compares the value of
  exercising with the value of holding and overwrites the variable \<open>exercise\<close> at every
  node. The variable is unbound (\<open>None\<close>) until the first node is visited. Comparing
  \<open>None\<close> with a number raises a \<open>TypeError\<close>.
\<close>

fun amer_new_row ::
  "real \<Rightarrow> real \<Rightarrow> string \<Rightarrow> real list \<Rightarrow> nat \<Rightarrow> bool option \<Rightarrow> real option list
     \<Rightarrow> error + (real option list \<times> bool option)" where
  "amer_new_row discount E option_type tree_row j exercise (a # b # rest) =
     (case (a, b) of
        (Some x, Some y) \<Rightarrow>
          (case py_get tree_row (int j) of
             Inl e \<Rightarrow> Inl e
           | Inr tree_value \<Rightarrow>
          (case payoff tree_value E option_type of
             None \<Rightarrow> Inl TypeError
           | Some exercise_value \<Rightarrow>
          (case amer_new_row discount E option_type tree_row (j + 1)
                  (Some (exercise_value > hold_value discount x y)) (b # rest) of
             Inl e \<Rightarrow> Inl e
           | Inr (row, ex) \<Rightarrow>
               Inr (Some (max (hold_value discount x y) exercise_value) # row, ex))))
      | _ \<Rightarrow> Inl TypeError)"
| "amer_new_row discount E option_type tree_row j exercise _ = Inr ([], exercise)"

text \<open>
  The outer loop: \<open>n\<close> iterations remain, \<open>i\<close> is the loop variable, and the row of
  stock prices is \<open>tree[(tree_len-2)-i]\<close>.
\<close>

fun amer_loop ::
  "nat \<Rightarrow> nat \<Rightarrow> real list list \<Rightarrow> real \<Rightarrow> real \<Rightarrow> string \<Rightarrow> bool option \<Rightarrow> real option list
     \<Rightarrow> error + (real option list \<times> bool option)" where
  "amer_loop 0 i tree discount E option_type exercise payoff_row = Inr (payoff_row, exercise)"
| "amer_loop (Suc n) i tree discount E option_type exercise payoff_row =
     (case py_get tree ((int (length tree) - 2) - int i) of
        Inl e \<Rightarrow> Inl e
      | Inr tree_row \<Rightarrow>
     (case amer_new_row discount E option_type tree_row 0 exercise payoff_row of
        Inl e \<Rightarrow> Inl e
      | Inr (new_row, ex) \<Rightarrow> amer_loop n (i + 1) tree discount E option_type ex new_row))"

definition find_amer_option_value ::
  "real \<Rightarrow> real \<Rightarrow> real \<Rightarrow> real \<Rightarrow> nat \<Rightarrow> real \<Rightarrow> string \<Rightarrow> error + (real option \<times> bool)" where
  "find_amer_option_value S_0 r sigma T steps E option_type =
     (case find_dt_u_d r sigma T steps of
        Inl e \<Rightarrow> Inl e
      | Inr (dt, u, d) \<Rightarrow>
     (case produce_tree S_0 r sigma T steps of
        Inl e \<Rightarrow> Inl e
      | Inr tree \<Rightarrow>
     (case py_get tree (int (length tree) - 1) of
        Inl e \<Rightarrow> Inl e
      | Inr final_row \<Rightarrow>
     (case amer_loop steps 0 tree (exp (- r * dt)) E option_type None
             (map (\<lambda>value. payoff value E option_type) final_row) of
        Inl e \<Rightarrow> Inl e
      | Inr (payoff_row, exercise) \<Rightarrow>
     (case py_get payoff_row 0 of
        Inl e \<Rightarrow> Inl e
      | Inr amer_option_value \<Rightarrow>
     (case exercise of
        None \<Rightarrow> Inl UnboundLocalError
      | Some ex \<Rightarrow> Inr (amer_option_value, ex)))))))"

subsection \<open>The rows the two loops hold\<close>

text \<open>
  The value of \<open>payoff_row\<close> (and, in the American function, of \<open>exercise\<close>) after
  \<open>k\<close> iterations of the outer loop: the body of the pricing function up to the loop,
  with the loop run \<open>k\<close> times.
\<close>

definition euro_row_after ::
  "nat \<Rightarrow> real \<Rightarrow> real \<Rightarrow> real \<Rightarrow> real \<Rightarrow> nat \<Rightarrow> real \<Rightarrow> string \<Rightarrow> error + real option list" where
  "euro_row_after k S_0 r sigma T steps E option_type =
     (case find_dt_u_d r sigma T steps of
        Inl e \<Rightarrow> Inl e
      | Inr (dt, u, d) \<Rightarrow>
     (case produce_tree S_0 r sigma T steps of
        Inl e \<Rightarrow> Inl e
      | Inr tree \<Rightarrow>
     (case py_get tree (int (length tree) - 1) of
        Inl e \<Rightarrow> Inl e
      | Inr final_row \<Rightarrow>
          euro_loop k (exp (- r * dt)) (map (\<lambda>value. payoff value E option_type) final_row))))"

definition amer_row_after ::
  "nat \<Rightarrow> real \<Rightarrow> real \<Rightarrow> real \<Rightarrow> real \<Rightarrow> nat \<Rightarrow> real \<Rightarrow> string
     \<Rightarrow> error + (real option list \<times> bool option)" where
  "amer_row_after k S_0 r sigma T steps E option_type =
     (case find_dt_u_d r sigma T steps of
        Inl e \<Rightarrow> Inl e
      | Inr (dt, u, d) \<Rightarrow>
     (case produce_tree S_0 r sigma T steps of
        Inl e \<Rightarrow> Inl e
      | Inr tree \<Rightarrow>
     (case py_get tree (int (length tree) - 1) of
        Inl e \<Rightarrow> Inl e
      | Inr final_row \<Rightarrow>
          amer_loop k 0 tree (exp (- r * dt)) E option_type None
            (map (\<lambda>value. payoff value E option_type) final_row))))"


subsection \<open>The value lattices as the specification words them\<close>

text \<open>
  Section 3 of the specification: the price at node \<open>(i, j)\<close> is \<open>S0 * u^j * d^(i - j)\<close>.
\<close>

definition lattice_price :: "real \<Rightarrow> real \<Rightarrow> real \<Rightarrow> nat \<Rightarrow> nat \<Rightarrow> real" where
  "lattice_price S_0 u d i j = S_0 * (u ^ j) * (d ^ (i - j))"

text \<open>
  Section 4.4: level \<open>N\<close> holds the payoffs of the prices of level \<open>N\<close>; an earlier
  node holds the discounted mean of its two successors (European), or the larger of
  that and the payoff of exercising at the node (American).
\<close>

function spec_euro_V ::
  "(nat \<Rightarrow> nat \<Rightarrow> real) \<Rightarrow> real \<Rightarrow> real \<Rightarrow> string \<Rightarrow> nat \<Rightarrow> nat \<Rightarrow> nat \<Rightarrow> real" where
  "spec_euro_V price discount E kind N i j =
     (if N \<le> i then spec_payoff (price N j) E kind
      else hold_value discount
             (spec_euro_V price discount E kind N (i + 1) j)
             (spec_euro_V price discount E kind N (i + 1) (j + 1)))"
  by pat_completeness auto
termination
  by (relation "measure (\<lambda>(price, discount, E, kind, N, i, j). N - i)") auto

function spec_amer_V ::
  "(nat \<Rightarrow> nat \<Rightarrow> real) \<Rightarrow> real \<Rightarrow> real \<Rightarrow> string \<Rightarrow> nat \<Rightarrow> nat \<Rightarrow> nat \<Rightarrow> real" where
  "spec_amer_V price discount E kind N i j =
     (if N \<le> i then spec_payoff (price N j) E kind
      else max (hold_value discount
                  (spec_amer_V price discount E kind N (i + 1) j)
                  (spec_amer_V price discount E kind N (i + 1) (j + 1)))
               (spec_payoff (price i j) E kind))"
  by pat_completeness auto
termination
  by (relation "measure (\<lambda>(price, discount, E, kind, N, i, j). N - i)") auto

text \<open>
  Both equations recur without a guard on the left, so they are unfolded by hand only.
\<close>

declare spec_euro_V.simps [simp del]
declare spec_amer_V.simps [simp del]

text \<open>The value of holding at a node of the American lattice before level \<open>N\<close>.\<close>

definition spec_amer_hold ::
  "(nat \<Rightarrow> nat \<Rightarrow> real) \<Rightarrow> real \<Rightarrow> real \<Rightarrow> string \<Rightarrow> nat \<Rightarrow> nat \<Rightarrow> nat \<Rightarrow> real" where
  "spec_amer_hold price discount E kind N i j =
     hold_value discount
       (spec_amer_V price discount E kind N (i + 1) j)
       (spec_amer_V price discount E kind N (i + 1) (j + 1))"

text \<open>The rows of the two lattices, as the lists the loops hold.\<close>

definition euro_level ::
  "(nat \<Rightarrow> nat \<Rightarrow> real) \<Rightarrow> real \<Rightarrow> real \<Rightarrow> string \<Rightarrow> nat \<Rightarrow> nat \<Rightarrow> real option list" where
  "euro_level price discount E kind N i =
     map (\<lambda>j. Some (spec_euro_V price discount E kind N i j)) [0..<Suc i]"

definition amer_level ::
  "(nat \<Rightarrow> nat \<Rightarrow> real) \<Rightarrow> real \<Rightarrow> real \<Rightarrow> string \<Rightarrow> nat \<Rightarrow> nat \<Rightarrow> real option list" where
  "amer_level price discount E kind N i =
     map (\<lambda>j. Some (spec_amer_V price discount E kind N i j)) [0..<Suc i]"

text \<open>The exercise comparison at a node: exercising is worth more than holding.\<close>

definition amer_flag ::
  "(nat \<Rightarrow> nat \<Rightarrow> real) \<Rightarrow> real \<Rightarrow> real \<Rightarrow> string \<Rightarrow> nat \<Rightarrow> nat \<Rightarrow> nat \<Rightarrow> bool" where
  "amer_flag price discount E kind N i j =
     (spec_payoff (price i j) E kind > spec_amer_hold price discount E kind N i j)"

text \<open>The price lattice of section 3 as a list of levels.\<close>

definition price_tree :: "(nat \<Rightarrow> nat \<Rightarrow> real) \<Rightarrow> nat \<Rightarrow> real list list" where
  "price_tree price N = map (\<lambda>i. map (\<lambda>j. price i j) [0..<i + 1]) [0..<N + 1]"

subsection \<open>The finite-difference solver (BlackScholes.py)\<close>

text \<open>
  Division raises on a zero divisor when the operands are Python floats; with numpy
  floats it gives \<open>inf\<close> or \<open>nan\<close> and a warning. Either way no real number results.
\<close>

definition py_div :: "real \<Rightarrow> real \<Rightarrow> error + real" where
  "py_div a b = (if b = 0 then Inl ZeroDivisionError else Inr (a / b))"

definition bind_err :: "error + 'a \<Rightarrow> ('a \<Rightarrow> error + 'b) \<Rightarrow> error + 'b" where
  "bind_err m f = (case m of Inl e \<Rightarrow> Inl e | Inr v \<Rightarrow> f v)"

text \<open>A loop \<open>for i in ...: xs.append(f(i))\<close> that stops at the first exception.\<close>

fun collect :: "(nat \<Rightarrow> error + 'a) \<Rightarrow> nat list \<Rightarrow> error + 'a list" where
  "collect f [] = Inr []"
| "collect f (i # ns) =
     (case f i of
        Inl e \<Rightarrow> Inl e
      | Inr v \<Rightarrow> (case collect f ns of Inl e \<Rightarrow> Inl e | Inr vs \<Rightarrow> Inr (v # vs)))"

definition find_dVdS :: "real list \<Rightarrow> real list \<Rightarrow> error + real list" where
  "find_dVdS V_list S_list =
     bind_err (collect (\<lambda>i.
         bind_err (py_get V_list (int i)) (\<lambda>V_1.
         bind_err (py_get V_list (int i + 1)) (\<lambda>V_2.
         bind_err (py_get S_list (int i)) (\<lambda>S_1.
         bind_err (py_get S_list (int i + 1)) (\<lambda>S_2.
         py_div (V_2 - V_1) (S_2 - S_1))))))
       [0..<length V_list - 1]) (\<lambda>dVdS_list.
     let list_len = int (length dVdS_list) in
     bind_err (py_get dVdS_list (list_len - 1)) (\<lambda>g_1.
     bind_err (py_get dVdS_list (list_len - 2)) (\<lambda>g_2.
     bind_err (py_get S_list (list_len - 2)) (\<lambda>s_1.
     bind_err (py_get S_list (list_len - 3)) (\<lambda>s_2.
     bind_err (py_div (g_1 - g_2) (s_1 - s_2)) (\<lambda>gradient.
     bind_err (py_get dVdS_list (list_len - 1)) (\<lambda>g_last.
     bind_err (py_get S_list (- 1)) (\<lambda>s_last.
     bind_err (py_get S_list (- 2)) (\<lambda>s_prev.
     Inr (dVdS_list @ [g_last + (s_last - s_prev) * gradient]))))))))))"

definition find_d2VdS2 :: "real list \<Rightarrow> real list \<Rightarrow> error + real list" where
  "find_d2VdS2 V_list S_list =
     bind_err (collect (\<lambda>i.
         bind_err (py_get V_list (int i - 1)) (\<lambda>V_minus.
         bind_err (py_get V_list (int i)) (\<lambda>V.
         bind_err (py_get V_list (int i + 1)) (\<lambda>V_plus.
         bind_err (py_get S_list (int i)) (\<lambda>S_1.
         bind_err (py_get S_list (int i + 1)) (\<lambda>S_2.
         py_div (V_minus - (2 * V) + V_plus) (S_2 - S_1)))))))
       [1..<length V_list - 1]) (\<lambda>d2VdS2_list.
     let list_len = int (length d2VdS2_list) in
     bind_err (py_get d2VdS2_list (list_len - 1)) (\<lambda>g_1.
     bind_err (py_get d2VdS2_list (list_len - 2)) (\<lambda>g_2.
     bind_err (py_get S_list (list_len - 2)) (\<lambda>s_1.
     bind_err (py_get S_list (list_len - 3)) (\<lambda>s_2.
     bind_err (py_div (g_1 - g_2) (s_1 - s_2)) (\<lambda>gradient.
     bind_err (py_get d2VdS2_list (list_len - 1)) (\<lambda>g_last.
     bind_err (py_get S_list (- 1)) (\<lambda>s_last.
     bind_err (py_get S_list (- 2)) (\<lambda>s_prev.
     let appended = d2VdS2_list @ [g_last + (s_last - s_prev) * gradient] in
     bind_err (py_get appended 1) (\<lambda>h_1.
     bind_err (py_get appended 0) (\<lambda>h_0.
     bind_err (py_get S_list 1) (\<lambda>t_1.
     bind_err (py_get S_list 0) (\<lambda>t_0.
     bind_err (py_div (h_1 - h_0) (t_1 - t_0)) (\<lambda>gradient_0.
     bind_err (py_get appended 0) (\<lambda>h_first.
     bind_err (py_get S_list 1) (\<lambda>t_b.
     bind_err (py_get S_list 0) (\<lambda>t_a.
     Inr ((h_first - (t_b - t_a) * gradient_0) # appended))))))))))))))))))"

definition find_dVdt :: "real list \<Rightarrow> real list \<Rightarrow> real \<Rightarrow> real \<Rightarrow> error + real list" where
  "find_dVdt V_list S_list r sigma =
     bind_err (find_dVdS V_list S_list) (\<lambda>dVdS_list.
     bind_err (find_d2VdS2 V_list S_list) (\<lambda>d2VdS2_list.
     collect (\<lambda>i.
         bind_err (py_get V_list (int i)) (\<lambda>V.
         bind_err (py_get S_list (int i)) (\<lambda>S.
         bind_err (py_get dVdS_list (int i)) (\<lambda>dVdS.
         bind_err (py_get d2VdS2_list (int i)) (\<lambda>d2VdS2.
         Inr (0 + r * V - r * S * dVdS - 0.5 * sigma * sigma * S * d2VdS2))))))
       [0..<length V_list]))"

text \<open>
  The right-hand side of the Black-Scholes equation as the specification words it
  (section 4.6), at one grid point.
\<close>

text \<open>
  The second spatial derivative as the specification words it: the second difference
  divided by the squared spacing.
\<close>

definition spec_d2VdS2 :: "real \<Rightarrow> real \<Rightarrow> real \<Rightarrow> real \<Rightarrow> real" where
  "spec_d2VdS2 V_minus V V_plus h = (V_minus - 2 * V + V_plus) / h ^ 2"

definition spec_dVdt :: "real \<Rightarrow> real \<Rightarrow> real \<Rightarrow> real \<Rightarrow> real \<Rightarrow> real \<Rightarrow> real" where
  "spec_dVdt r sigma V S dVdS d2VdS2 = r * V - r * S * dVdS - 0.5 * sigma ^ 2 * S ^ 2 * d2VdS2"

section \<open>The payoff function\<close>

lemma payoff_recognized:
  "recognized option_type \<Longrightarrow> payoff S E option_type = Some (spec_payoff S E option_type)"
  by (auto simp: recognized_def payoff_def spec_payoff_def)

lemma payoff_unrecognized: "\<not> recognized option_type \<Longrightarrow> payoff S E option_type = None"
  by (simp add: recognized_def payoff_def)

lemma spec_payoff_nonneg: "0 \<le> spec_payoff S E option_type"
  by (simp add: spec_payoff_def)

section \<open>Rows of the backward induction\<close>

text \<open>
  The inner loops, run on a row that is given by its index function, produce the row of
  discounted means (European) or of the larger of holding and exercising (American).
\<close>

lemma upt_two: "[k..<Suc (k + Suc m)] = k # Suc k # [Suc (Suc k)..<Suc (Suc k + m)]"
  by (simp add: upt_conv_Cons)

lemma upt_tl: "Suc k # [Suc (Suc k)..<Suc (Suc k + m)] = [Suc k..<Suc (Suc k + m)]"
  by (simp add: upt_conv_Cons)

lemma upt_res: "[k..<k + Suc m] = k # [Suc k..<Suc k + m]"
  by (simp add: upt_conv_Cons)

lemma py_get_nat: "n < length xs \<Longrightarrow> py_get xs (int n) = Inr (xs ! n)"
  by (simp add: py_get_def)

lemma euro_new_row_upt:
  "euro_new_row disc (map (\<lambda>j. Some (f j)) [k..<Suc (k + m)]) =
     Inr (map (\<lambda>j. Some (hold_value disc (f j) (f (Suc j)))) [k..<k + m])"
proof (induction m arbitrary: k)
  case 0
  show ?case by simp
next
  case (Suc m)
  have IH: "euro_new_row disc (map (\<lambda>j. Some (f j)) (Suc k # [Suc (Suc k)..<Suc (Suc k + m)])) =
     Inr (map (\<lambda>j. Some (hold_value disc (f j) (f (Suc j)))) [Suc k..<Suc k + m])"
    unfolding upt_tl by (rule Suc.IH)
  have step: "euro_new_row disc (map (\<lambda>j. Some (f j)) (k # Suc k # [Suc (Suc k)..<Suc (Suc k + m)])) =
     (case euro_new_row disc (map (\<lambda>j. Some (f j)) (Suc k # [Suc (Suc k)..<Suc (Suc k + m)])) of
        Inl e \<Rightarrow> Inl e
      | Inr row \<Rightarrow> Inr (Some (hold_value disc (f k) (f (Suc k))) # row))"
    by (simp del: upt_Suc)
  show ?case
    unfolding upt_two upt_res step IH by simp
qed

lemma amer_new_row_upt:
  assumes "recognized kind"
  shows "k + m \<le> length tree_row \<Longrightarrow>
     amer_new_row disc E kind tree_row k ex (map (\<lambda>j. Some (f j)) [k..<Suc (k + m)]) =
     Inr (map (\<lambda>j. Some (max (hold_value disc (f j) (f (Suc j))) (spec_payoff (tree_row ! j) E kind)))
            [k..<k + m],
          if m = 0 then ex
          else Some (spec_payoff (tree_row ! (k + m - 1)) E kind
                       > hold_value disc (f (k + m - 1)) (f (k + m))))"
proof (induction m arbitrary: k ex)
  case 0
  show ?case by simp
next
  case (Suc m)
  have len: "Suc k + m \<le> length tree_row" "k < length tree_row"
    using Suc.prems by auto
  have get: "py_get tree_row (int k) = Inr (tree_row ! k)"
    using len by (simp add: py_get_nat)
  have pay: "payoff (tree_row ! k) E kind = Some (spec_payoff (tree_row ! k) E kind)"
    by (rule payoff_recognized [OF assms])
  let ?ex = "Some (spec_payoff (tree_row ! k) E kind > hold_value disc (f k) (f (Suc k)))"
  have IH: "amer_new_row disc E kind tree_row (Suc k) ?ex
              (map (\<lambda>j. Some (f j)) (Suc k # [Suc (Suc k)..<Suc (Suc k + m)])) =
            Inr (map (\<lambda>j. Some (max (hold_value disc (f j) (f (Suc j))) (spec_payoff (tree_row ! j) E kind)))
                   [Suc k..<Suc k + m],
                 if m = 0 then ?ex
                 else Some (spec_payoff (tree_row ! (Suc k + m - 1)) E kind
                       > hold_value disc (f (Suc k + m - 1)) (f (Suc k + m))))"
    unfolding upt_tl by (rule Suc.IH [OF len(1)])
  have step: "amer_new_row disc E kind tree_row k ex
                (map (\<lambda>j. Some (f j)) (k # Suc k # [Suc (Suc k)..<Suc (Suc k + m)])) =
              (case amer_new_row disc E kind tree_row (Suc k) ?ex
                      (map (\<lambda>j. Some (f j)) (Suc k # [Suc (Suc k)..<Suc (Suc k + m)])) of
                 Inl e \<Rightarrow> Inl e
               | Inr (row, ex') \<Rightarrow>
                   Inr (Some (max (hold_value disc (f k) (f (Suc k))) (spec_payoff (tree_row ! k) E kind)) # row, ex'))"
    by (simp add: get pay del: upt_Suc)
  show ?case
    unfolding upt_two upt_res step IH
    by (cases m) simp_all
qed

section \<open>The loops compute the levels of the value lattices\<close>

lemma spec_euro_V_step:
  "i < N \<Longrightarrow> spec_euro_V price disc E kind N i j =
     hold_value disc (spec_euro_V price disc E kind N (Suc i) j)
       (spec_euro_V price disc E kind N (Suc i) (Suc j))"
  by (subst spec_euro_V.simps) simp

lemma spec_euro_V_final:
  "spec_euro_V price disc E kind N N j = spec_payoff (price N j) E kind"
  by (subst spec_euro_V.simps) simp

lemma spec_amer_V_step:
  "i < N \<Longrightarrow> spec_amer_V price disc E kind N i j =
     max (spec_amer_hold price disc E kind N i j) (spec_payoff (price i j) E kind)"
  by (subst spec_amer_V.simps) (simp add: spec_amer_hold_def)

lemma spec_amer_V_final:
  "spec_amer_V price disc E kind N N j = spec_payoff (price N j) E kind"
  by (subst spec_amer_V.simps) simp

lemma euro_new_row_level:
  assumes "i < N"
  shows "euro_new_row disc (euro_level price disc E kind N (Suc i)) =
         Inr (euro_level price disc E kind N i)"
proof -
  have "euro_new_row disc
          (map (\<lambda>j. Some (spec_euro_V price disc E kind N (Suc i) j)) [0..<Suc (0 + Suc i)]) =
        Inr (map (\<lambda>j. Some (hold_value disc (spec_euro_V price disc E kind N (Suc i) j)
                               (spec_euro_V price disc E kind N (Suc i) (Suc j))))
               [0..<0 + Suc i])"
    by (rule euro_new_row_upt)
  then show ?thesis
    using assms by (simp add: euro_level_def spec_euro_V_step del: upt_Suc)
qed

lemma euro_loop_level:
  "k \<le> i \<Longrightarrow> i \<le> N \<Longrightarrow>
     euro_loop k disc (euro_level price disc E kind N i) =
     Inr (euro_level price disc E kind N (i - k))"
proof (induction k arbitrary: i)
  case 0
  show ?case by simp
next
  case (Suc k)
  then obtain i' where i: "i = Suc i'" by (cases i) auto
  with Suc.prems have "i' < N" "k \<le> i'" "i' \<le> N" by auto
  then show ?case
    using Suc.IH [of i'] by (simp add: i euro_new_row_level)
qed

lemma price_row_nth: "j \<le> i \<Longrightarrow> map (\<lambda>j. price i j) [0..<Suc i] ! j = (price i j :: real)"
  by (simp del: upt_Suc)

lemma amer_new_row_level:
  assumes "recognized kind" "i < N"
  shows "amer_new_row disc E kind (map (\<lambda>j. price i j) [0..<Suc i]) 0 ex
           (amer_level price disc E kind N (Suc i)) =
         Inr (amer_level price disc E kind N i, Some (amer_flag price disc E kind N i i))"
proof -
  let ?row = "map (\<lambda>j. price i j) [0..<Suc i]"
  let ?f = "\<lambda>j. spec_amer_V price disc E kind N (Suc i) j"
  have len: "0 + Suc i \<le> length ?row" by simp
  have run: "amer_new_row disc E kind ?row 0 ex (map (\<lambda>j. Some (?f j)) [0..<Suc (0 + Suc i)]) =
        Inr (map (\<lambda>j. Some (max (hold_value disc (?f j) (?f (Suc j))) (spec_payoff (?row ! j) E kind)))
               [0..<0 + Suc i],
             if Suc i = 0 then ex
             else Some (spec_payoff (?row ! (0 + Suc i - 1)) E kind
                       > hold_value disc (?f (0 + Suc i - 1)) (?f (0 + Suc i))))"
    by (rule amer_new_row_upt [OF assms(1) len])
  have rows: "map (\<lambda>j. Some (max (hold_value disc (?f j) (?f (Suc j))) (spec_payoff (?row ! j) E kind)))
               [0..<0 + Suc i] = amer_level price disc E kind N i"
    unfolding amer_level_def
    by (rule map_cong)
      (simp_all add: price_row_nth spec_amer_V_step [OF assms(2)] spec_amer_hold_def del: upt_Suc)
  have flag: "(spec_payoff (?row ! (0 + Suc i - 1)) E kind
                 > hold_value disc (?f (0 + Suc i - 1)) (?f (0 + Suc i))) =
              amer_flag price disc E kind N i i"
    by (simp add: amer_flag_def spec_amer_hold_def price_row_nth del: upt_Suc)
  show ?thesis
    using run unfolding rows flag by (simp add: amer_level_def del: upt_Suc)
qed

lemma price_tree_length: "length (price_tree price N) = N + 1"
  by (simp add: price_tree_def)

lemma price_tree_nth: "i \<le> N \<Longrightarrow> price_tree price N ! i = map (\<lambda>j. price i j) [0..<Suc i]"
  by (simp add: price_tree_def del: upt_Suc)

lemma amer_loop_level:
  assumes "recognized kind"
  shows "k \<le> i \<Longrightarrow> i \<le> N \<Longrightarrow> lp + i = N \<Longrightarrow>
     amer_loop k lp (price_tree price N) disc E kind ex (amer_level price disc E kind N i) =
       Inr (amer_level price disc E kind N (i - k),
            if k = 0 then ex else Some (amer_flag price disc E kind N (i - k) (i - k)))"
proof (induction k arbitrary: i lp ex)
  case 0
  show ?case by simp
next
  case (Suc k)
  then obtain i' where i: "i = Suc i'" by (cases i) auto
  with Suc.prems have b: "i' < N" "k \<le> i'" "i' \<le> N" "(lp + 1) + i' = N" by auto
  have idx: "int (length (price_tree price N)) - 2 - int lp = int i'"
    using b(4) by (simp add: price_tree_length)
  have get: "py_get (price_tree price N) (int (length (price_tree price N)) - 2 - int lp)
              = Inr (map (\<lambda>j. price i' j) [0..<Suc i'])"
    unfolding idx using b(3) by (simp add: py_get_nat price_tree_length price_tree_nth del: upt_Suc)
  have step: "amer_loop (Suc k) lp (price_tree price N) disc E kind ex
                (amer_level price disc E kind N (Suc i')) =
              amer_loop k (lp + 1) (price_tree price N) disc E kind
                (Some (amer_flag price disc E kind N i' i')) (amer_level price disc E kind N i')"
    by (simp add: get amer_new_row_level [OF assms b(1)] del: upt_Suc)
  show ?case
    unfolding i step
    using Suc.IH [OF b(2) b(3) b(4), of "Some (amer_flag price disc E kind N i' i')"]
    by (cases k) simp_all
qed

section \<open>The pricing functions return the roots of the lattices\<close>

lemma find_dt_u_d_steps: "find_dt_u_d r sigma T N = Inr (dt, u, d) \<Longrightarrow> 0 < N"
  by (cases "N = 0") (simp_all add: find_dt_u_d_def)

lemma find_dt_u_d_value:
  assumes "0 < N" "0 \<le> T"
  shows "find_dt_u_d r sigma T N =
           Inr (T / real N,
                exp (r * (T / real N)) * (1 + sqrt (exp ((sigma ^ 2) * (T / real N)) - 1)),
                exp (r * (T / real N)) * (1 - sqrt (exp ((sigma ^ 2) * (T / real N)) - 1)))"
proof -
  have "0 \<le> (sigma ^ 2) * (T / real N)"
    using assms by simp
  then have "\<not> exp ((sigma ^ 2) * (T / real N)) - 1 < 0"
    by simp
  then show ?thesis
    using assms(1) by (simp add: find_dt_u_d_def Let_def)
qed

lemma produce_tree_eq:
  "find_dt_u_d r sigma T N = Inr (dt, u, d) \<Longrightarrow>
     produce_tree S_0 r sigma T N = Inr (price_tree (lattice_price S_0 u d) N)"
  by (simp add: produce_tree_def price_tree_def lattice_price_def)

lemma final_row_eq:
  "py_get (price_tree price N) (int (length (price_tree price N)) - 1) =
     Inr (map (\<lambda>j. price N j) [0..<Suc N])"
proof -
  have "int (length (price_tree price N)) - 1 = int N"
    by (simp add: price_tree_length)
  then show ?thesis
    by (simp add: py_get_nat price_tree_length price_tree_nth del: upt_Suc)
qed

lemma payoff_row_euro:
  "recognized kind \<Longrightarrow>
     map (\<lambda>value. payoff value E kind) (map (\<lambda>j. price N j) [0..<Suc N]) =
     euro_level price disc E kind N N"
  by (simp add: euro_level_def payoff_recognized spec_euro_V_final del: upt_Suc)

lemma payoff_row_amer:
  "recognized kind \<Longrightarrow>
     map (\<lambda>value. payoff value E kind) (map (\<lambda>j. price N j) [0..<Suc N]) =
     amer_level price disc E kind N N"
  by (simp add: amer_level_def payoff_recognized spec_amer_V_final del: upt_Suc)

lemma py_get_single: "py_get [x] 0 = Inr x"
  by (simp add: py_get_def)

lemma euro_level_root: "euro_level price disc E kind N 0 = [Some (spec_euro_V price disc E kind N 0 0)]"
  by (simp add: euro_level_def)

lemma amer_level_root: "amer_level price disc E kind N 0 = [Some (spec_amer_V price disc E kind N 0 0)]"
  by (simp add: amer_level_def)

lemma find_euro_eq:
  assumes fac: "find_dt_u_d r sigma T N = Inr (dt, u, d)" and kind: "recognized kind"
  shows "find_euro_option_value S_0 r sigma T N E kind =
           Inr (Some (spec_euro_V (lattice_price S_0 u d) (exp (- r * dt)) E kind N 0 0))"
proof -
  let ?price = "lattice_price S_0 u d"
  let ?disc = "exp (- r * dt)"
  have loop: "euro_loop N ?disc (euro_level ?price ?disc E kind N N) =
                Inr (euro_level ?price ?disc E kind N (N - N))"
    by (rule euro_loop_level) simp_all
  show ?thesis
    unfolding find_euro_option_value_def
    by (simp only: fac produce_tree_eq [OF fac] final_row_eq sum.case prod.case
          payoff_row_euro [OF kind, of E ?price N ?disc] loop diff_self_eq_0
          euro_level_root py_get_single)
qed

lemma find_amer_eq:
  assumes fac: "find_dt_u_d r sigma T N = Inr (dt, u, d)" and kind: "recognized kind"
  shows "find_amer_option_value S_0 r sigma T N E kind =
           Inr (Some (spec_amer_V (lattice_price S_0 u d) (exp (- r * dt)) E kind N 0 0),
                amer_flag (lattice_price S_0 u d) (exp (- r * dt)) E kind N 0 0)"
proof -
  let ?price = "lattice_price S_0 u d"
  let ?disc = "exp (- r * dt)"
  have N: "0 < N" using fac by (rule find_dt_u_d_steps)
  have loop: "amer_loop N 0 (price_tree ?price N) ?disc E kind None (amer_level ?price ?disc E kind N N) =
                Inr (amer_level ?price ?disc E kind N (N - N),
                     if N = 0 then None else Some (amer_flag ?price ?disc E kind N (N - N) (N - N)))"
    by (rule amer_loop_level [OF kind]) simp_all
  show ?thesis
    unfolding find_amer_option_value_def
    using N
    by (simp only: fac produce_tree_eq [OF fac] final_row_eq sum.case prod.case
          payoff_row_amer [OF kind, of E ?price N ?disc] loop diff_self_eq_0
          amer_level_root py_get_single option.case) simp
qed

lemma find_euro_by_rows:
  "find_euro_option_value S_0 r sigma T steps E option_type =
     (case euro_row_after steps S_0 r sigma T steps E option_type of
        Inl e \<Rightarrow> Inl e
      | Inr payoff_row \<Rightarrow> py_get payoff_row 0)"
  by (simp add: find_euro_option_value_def euro_row_after_def split: sum.splits prod.splits)

lemma find_amer_by_rows:
  "find_amer_option_value S_0 r sigma T steps E option_type =
     (case amer_row_after steps S_0 r sigma T steps E option_type of
        Inl e \<Rightarrow> Inl e
      | Inr (payoff_row, exercise) \<Rightarrow>
     (case py_get payoff_row 0 of
        Inl e \<Rightarrow> Inl e
      | Inr amer_option_value \<Rightarrow>
     (case exercise of
        None \<Rightarrow> Inl UnboundLocalError
      | Some ex \<Rightarrow> Inr (amer_option_value, ex))))"
  by (simp add: find_amer_option_value_def amer_row_after_def split: sum.splits prod.splits)

lemma euro_row_after_eq:
  assumes fac: "find_dt_u_d r sigma T N = Inr (dt, u, d)" and kind: "recognized kind"
    and k: "k \<le> N"
  shows "euro_row_after k S_0 r sigma T N E kind =
           Inr (euro_level (lattice_price S_0 u d) (exp (- r * dt)) E kind N (N - k))"
proof -
  let ?price = "lattice_price S_0 u d"
  let ?disc = "exp (- r * dt)"
  have loop: "euro_loop k ?disc (euro_level ?price ?disc E kind N N) =
                Inr (euro_level ?price ?disc E kind N (N - k))"
    using k by (intro euro_loop_level) simp_all
  show ?thesis
    unfolding euro_row_after_def
    by (simp only: fac produce_tree_eq [OF fac] final_row_eq sum.case prod.case
          payoff_row_euro [OF kind, of E ?price N ?disc] loop)
qed

lemma amer_row_after_eq:
  assumes fac: "find_dt_u_d r sigma T N = Inr (dt, u, d)" and kind: "recognized kind"
    and k: "k \<le> N"
  shows "amer_row_after k S_0 r sigma T N E kind =
           Inr (amer_level (lattice_price S_0 u d) (exp (- r * dt)) E kind N (N - k),
                if k = 0 then None
                else Some (amer_flag (lattice_price S_0 u d) (exp (- r * dt)) E kind N (N - k) (N - k)))"
proof -
  let ?price = "lattice_price S_0 u d"
  let ?disc = "exp (- r * dt)"
  have loop: "amer_loop k 0 (price_tree ?price N) ?disc E kind None (amer_level ?price ?disc E kind N N) =
                Inr (amer_level ?price ?disc E kind N (N - k),
                     if k = 0 then None else Some (amer_flag ?price ?disc E kind N (N - k) (N - k)))"
    using k by (intro amer_loop_level [OF kind]) simp_all
  show ?thesis
    unfolding amer_row_after_def
    by (simp only: fac produce_tree_eq [OF fac] final_row_eq sum.case prod.case
          payoff_row_amer [OF kind, of E ?price N ?disc] loop)
qed

lemma hold_value_mono:
  "0 \<le> disc \<Longrightarrow> a \<le> a' \<Longrightarrow> b \<le> b' \<Longrightarrow> hold_value disc a b \<le> hold_value disc a' b'"
  unfolding hold_value_def by (intro mult_left_mono mult_nonneg_nonneg) simp_all

lemma hold_value_nonneg: "0 \<le> disc \<Longrightarrow> 0 \<le> a \<Longrightarrow> 0 \<le> b \<Longrightarrow> 0 \<le> hold_value disc a b"
  unfolding hold_value_def by simp

lemma spec_V_beyond:
  "N \<le> i \<Longrightarrow> spec_euro_V price disc E kind N i j = spec_payoff (price N j) E kind"
  "N \<le> i \<Longrightarrow> spec_amer_V price disc E kind N i j = spec_payoff (price N j) E kind"
  by (subst spec_euro_V.simps, simp) (subst spec_amer_V.simps, simp)

lemma spec_V_dominance:
  "0 \<le> disc \<Longrightarrow> spec_euro_V price disc E kind N i j \<le> spec_amer_V price disc E kind N i j"
proof (induction n \<equiv> "N - i" arbitrary: i j)
  case 0
  then have "N \<le> i" by simp
  then show ?case by (simp add: spec_V_beyond)
next
  case (Suc n)
  then have i: "i < N" and n: "n = N - Suc i" by auto
  have "hold_value disc (spec_euro_V price disc E kind N (Suc i) j)
          (spec_euro_V price disc E kind N (Suc i) (Suc j))
        \<le> hold_value disc (spec_amer_V price disc E kind N (Suc i) j)
          (spec_amer_V price disc E kind N (Suc i) (Suc j))"
    using Suc.prems Suc.hyps(1) [OF n] by (intro hold_value_mono) simp_all
  then show ?case
    by (simp add: spec_euro_V_step [OF i] spec_amer_V_step [OF i] spec_amer_hold_def)
qed

lemma spec_euro_V_nonneg:
  "0 \<le> disc \<Longrightarrow> 0 \<le> spec_euro_V price disc E kind N i j"
proof (induction n \<equiv> "N - i" arbitrary: i j)
  case 0
  then have "N \<le> i" by simp
  then show ?case by (simp add: spec_V_beyond spec_payoff_nonneg)
next
  case (Suc n)
  then have i: "i < N" and n: "n = N - Suc i" by auto
  show ?case
    unfolding spec_euro_V_step [OF i]
    using Suc.prems Suc.hyps(1) [OF n] by (intro hold_value_nonneg) simp_all
qed

lemma spec_amer_V_nonneg:
  "0 \<le> disc \<Longrightarrow> 0 \<le> spec_amer_V price disc E kind N i j"
  using spec_V_dominance [of disc price E kind N i j] spec_euro_V_nonneg [of disc price E kind N i j]
  by simp

section \<open>Claims about the two pricing functions\<close>

lemma factors_exist:
  assumes "1 \<le> N" "0 \<le> T"
  obtains u d where "find_dt_u_d r sigma T N = Inr (T / real N, u, d)"
  using find_dt_u_d_value [of N T r sigma] assms by auto

lemma level_as_list:
  "euro_level price disc E kind N i = map Some (map (\<lambda>j. spec_euro_V price disc E kind N i j) [0..<Suc i])"
  "amer_level price disc E kind N i = map Some (map (\<lambda>j. spec_amer_V price disc E kind N i j) [0..<Suc i])"
  by (simp_all add: euro_level_def amer_level_def del: upt_Suc)

text \<open>
  A lattice of one step that evaluates in closed form: \<open>r = ln 2\<close> and
  \<open>sigma = sqrt (ln (5/4))\<close> over one unit of time give \<open>u = 3\<close>, \<open>d = 1\<close> and the discount
  factor \<open>1/2\<close>.
\<close>

lemma example_factors:
  "find_dt_u_d (ln 2) (sqrt (ln (5 / 4))) 1 1 = Inr (1, 3, 1)"
proof -
  have s: "(sqrt (ln (5 / 4 :: real))) ^ 2 = ln (5 / 4)"
    by (simp add: ln_ge_zero)
  have q: "sqrt (1 / 4 :: real) = 1 / 2"
    by (simp add: real_sqrt_divide)
  have A: "exp ((sqrt (ln (5 / 4 :: real))) ^ 2 * (1 / real (1::nat))) - 1 = 1 / 4"
    unfolding s by simp
  have B: "exp (ln 2 * (1 / real (1::nat))) = (2::real)"
    by simp
  show ?thesis
    unfolding find_dt_u_d_def Let_def A B q by simp
qed

lemma example_lattice_euro:
  "spec_euro_V price disc E kind 1 0 0 =
     hold_value disc (spec_payoff (price 1 0) E kind) (spec_payoff (price 1 1) E kind)"
  by (simp add: spec_euro_V_step spec_V_beyond)

lemma example_lattice_amer:
  "spec_amer_V price disc E kind 1 0 0 =
     max (hold_value disc (spec_payoff (price 1 0) E kind) (spec_payoff (price 1 1) E kind))
         (spec_payoff (price 0 0) E kind)"
  by (simp add: spec_amer_V_step spec_amer_hold_def spec_V_beyond)

lemma example_discount: "exp (- ln 2 * 1) = (1 / 2 :: real)"
  by (simp add: exp_minus inverse_eq_divide)

text \<open>
  C1. With at least one step, a time horizon that is not negative and one of the four
  option types, \<open>find_euro_option_value\<close> returns the root of the backward induction
  over the price tree: level \<open>N\<close> holds the payoffs of the prices
  \<open>S0 * u^j * d^(N - j)\<close>, every earlier node is \<open>exp(-r*dt) * 0.5\<close> times the sum of
  its two successors, with \<open>dt = T/N\<close> and \<open>(u, d)\<close> from \<open>find_dt_u_d\<close>, the row the
  loop holds after \<open>k\<close> iterations is level \<open>N - k\<close>, and the value returned is the
  single value of level 0. The claim's \<open>S0 > 0\<close>, \<open>sigma > 0\<close> and \<open>T > 0\<close> are not
  needed.
\<close>

theorem euro_value_is_lattice_root:
  assumes "1 \<le> N" "0 \<le> T" "recognized kind"
  shows "\<exists>dt u d. find_dt_u_d r sigma T N = Inr (dt, u, d) \<and> dt = T / real N \<and>
    (let discount = exp (- r * dt);
         V = spec_euro_V (lattice_price S_0 u d) discount E kind N
     in (\<forall>j\<le>N. payoff (S_0 * u ^ j * d ^ (N - j)) E kind = Some (V N j)) \<and>
        (\<forall>i<N. \<forall>j\<le>i. V i j = discount * 0.5 * (V (i + 1) j + V (i + 1) (j + 1))) \<and>
        (\<forall>k\<le>N. euro_row_after k S_0 r sigma T N E kind =
                  Inr (map (\<lambda>j. Some (V (N - k) j)) [0..<N - k + 1])) \<and>
        find_euro_option_value S_0 r sigma T N E kind = Inr (Some (V 0 0)))"
proof -
  obtain u d where fac: "find_dt_u_d r sigma T N = Inr (T / real N, u, d)"
    using assms(1,2) by (rule factors_exist)
  let ?disc = "exp (- r * (T / real N))"
  let ?V = "spec_euro_V (lattice_price S_0 u d) ?disc E kind N"
  have final: "\<forall>j\<le>N. payoff (S_0 * u ^ j * d ^ (N - j)) E kind = Some (?V N j)"
    by (simp add: payoff_recognized [OF assms(3)] spec_euro_V_final lattice_price_def)
  have step: "\<forall>i<N. \<forall>j\<le>i. ?V i j = ?disc * 0.5 * (?V (i + 1) j + ?V (i + 1) (j + 1))"
    by (simp add: spec_euro_V_step hold_value_def)
  have rows: "\<forall>k\<le>N. euro_row_after k S_0 r sigma T N E kind =
                Inr (map (\<lambda>j. Some (?V (N - k) j)) [0..<N - k + 1])"
    by (simp add: euro_row_after_eq [OF fac assms(3)] euro_level_def del: upt_Suc)
  have root: "find_euro_option_value S_0 r sigma T N E kind = Inr (Some (?V 0 0))"
    by (rule find_euro_eq [OF fac assms(3)])
  show ?thesis
    unfolding Let_def using fac final step rows root by blast
qed

theorem euro_value_is_lattice_root_witness:
  "find_euro_option_value 100 (ln 2) (sqrt (ln (5 / 4))) 1 1 120 ''put'' = Inr (Some 5)"
proof -
  have h: "(1::nat) \<le> 1" "(0::real) \<le> 1" "recognized ''put''"
    by (simp_all add: recognized_def)
  obtain dt u d where fac: "find_dt_u_d (ln 2) (sqrt (ln (5 / 4))) 1 1 = Inr (dt, u, d)"
    and root: "find_euro_option_value 100 (ln 2) (sqrt (ln (5 / 4))) 1 1 120 ''put'' =
      Inr (Some (spec_euro_V (lattice_price 100 u d) (exp (- ln 2 * dt)) 120 ''put'' 1 0 0))"
    using euro_value_is_lattice_root [OF h, of "ln 2" "sqrt (ln (5 / 4))" 100 120]
    unfolding Let_def by blast
  from fac have v: "dt = 1" "u = 3" "d = 1"
    unfolding example_factors by simp_all
  show ?thesis
    unfolding root v example_discount example_lattice_euro
    by (simp add: hold_value_def lattice_price_def spec_payoff_def)
qed

text \<open>
  C2. With at least one step and one of the four option types,
  \<open>find_amer_option_value\<close> computes every node before level \<open>N\<close> as the larger of the
  value of holding, \<open>exp(-r*dt) * 0.5 * (V[i+1][j] + V[i+1][j+1])\<close>, and the value of
  exercising, the payoff of the price at the node; it returns the root value together
  with the flag \<open>exercise_value > hold_value\<close> of the root node.
\<close>

theorem amer_value_and_flag:
  assumes "1 \<le> N" "0 \<le> T" "recognized kind"
  shows "\<exists>dt u d. find_dt_u_d r sigma T N = Inr (dt, u, d) \<and> dt = T / real N \<and>
    (let discount = exp (- r * dt);
         V = spec_amer_V (lattice_price S_0 u d) discount E kind N;
         hold = (\<lambda>i j. discount * 0.5 * (V (i + 1) j + V (i + 1) (j + 1)))
     in (\<forall>i<N. \<forall>j\<le>i. \<exists>exercise_value.
            payoff (S_0 * u ^ j * d ^ (i - j)) E kind = Some exercise_value \<and>
            V i j = max (hold i j) exercise_value) \<and>
        (\<forall>k\<le>N. \<exists>exercise. amer_row_after k S_0 r sigma T N E kind =
                  Inr (map (\<lambda>j. Some (V (N - k) j)) [0..<N - k + 1], exercise)) \<and>
        (\<exists>exercise_value.
            payoff (S_0 * u ^ 0 * d ^ 0) E kind = Some exercise_value \<and>
            find_amer_option_value S_0 r sigma T N E kind =
              Inr (Some (V 0 0), exercise_value > hold 0 0)))"
proof -
  obtain u d where fac: "find_dt_u_d r sigma T N = Inr (T / real N, u, d)"
    using assms(1,2) by (rule factors_exist)
  let ?disc = "exp (- r * (T / real N))"
  let ?price = "lattice_price S_0 u d"
  let ?V = "spec_amer_V ?price ?disc E kind N"
  let ?hold = "\<lambda>i j. ?disc * 0.5 * (?V (i + 1) j + ?V (i + 1) (j + 1))"
  have hold: "\<And>i j. ?hold i j = spec_amer_hold ?price ?disc E kind N i j"
    by (simp add: spec_amer_hold_def hold_value_def)
  have nodes: "\<forall>i<N. \<forall>j\<le>i. \<exists>exercise_value.
            payoff (S_0 * u ^ j * d ^ (i - j)) E kind = Some exercise_value \<and>
            ?V i j = max (?hold i j) exercise_value"
    unfolding hold
    by (simp add: payoff_recognized [OF assms(3)] spec_amer_V_step lattice_price_def)
  have rows: "\<forall>k\<le>N. \<exists>exercise. amer_row_after k S_0 r sigma T N E kind =
                  Inr (map (\<lambda>j. Some (?V (N - k) j)) [0..<N - k + 1], exercise)"
    by (simp add: amer_row_after_eq [OF fac assms(3)] amer_level_def del: upt_Suc)
  have root: "\<exists>exercise_value.
            payoff (S_0 * u ^ 0 * d ^ 0) E kind = Some exercise_value \<and>
            find_amer_option_value S_0 r sigma T N E kind =
              Inr (Some (?V 0 0), exercise_value > ?hold 0 0)"
    unfolding hold
    by (simp add: payoff_recognized [OF assms(3)] find_amer_eq [OF fac assms(3)] amer_flag_def
          lattice_price_def)
  show ?thesis
    unfolding Let_def using fac nodes rows root by blast
qed

theorem amer_value_and_flag_witness:
  "find_amer_option_value 100 (ln 2) (sqrt (ln (5 / 4))) 1 1 120 ''put'' = Inr (Some 20, True)"
proof -
  have h: "(1::nat) \<le> 1" "(0::real) \<le> 1" "recognized ''put''"
    by (simp_all add: recognized_def)
  obtain dt u d ev where fac: "find_dt_u_d (ln 2) (sqrt (ln (5 / 4))) 1 1 = Inr (dt, u, d)"
    and ev: "payoff (100 * u ^ 0 * d ^ 0) 120 ''put'' = Some ev"
    and root: "find_amer_option_value 100 (ln 2) (sqrt (ln (5 / 4))) 1 1 120 ''put'' =
      Inr (Some (spec_amer_V (lattice_price 100 u d) (exp (- ln 2 * dt)) 120 ''put'' 1 0 0),
           ev > exp (- ln 2 * dt) * 0.5 *
             (spec_amer_V (lattice_price 100 u d) (exp (- ln 2 * dt)) 120 ''put'' 1 (0 + 1) 0 +
              spec_amer_V (lattice_price 100 u d) (exp (- ln 2 * dt)) 120 ''put'' 1 (0 + 1) (0 + 1)))"
    using amer_value_and_flag [OF h, of "ln 2" "sqrt (ln (5 / 4))" 100 120]
    unfolding Let_def by blast
  from fac have v: "dt = 1" "u = 3" "d = 1"
    unfolding example_factors by simp_all
  from ev have e: "ev = 20"
    by (simp add: payoff_def)
  show ?thesis
    unfolding root v e example_discount example_lattice_amer
    by (simp add: hold_value_def lattice_price_def spec_payoff_def spec_V_beyond)
qed

text \<open>
  C3. On the same input the American value is at least the European value, and after
  every number \<open>k\<close> of iterations the two rows have the same length and the American row
  is at least the European row at every index.
\<close>

theorem amer_dominates_euro:
  assumes "1 \<le> N" "0 \<le> T" "recognized kind"
  shows "(\<exists>va ex ve.
            find_amer_option_value S_0 r sigma T N E kind = Inr (Some va, ex) \<and>
            find_euro_option_value S_0 r sigma T N E kind = Inr (Some ve) \<and> ve \<le> va) \<and>
         (\<forall>k\<le>N. \<exists>ra ex re.
            amer_row_after k S_0 r sigma T N E kind = Inr (map Some ra, ex) \<and>
            euro_row_after k S_0 r sigma T N E kind = Inr (map Some re) \<and>
            length ra = N + 1 - k \<and> length re = N + 1 - k \<and>
            (\<forall>j<N + 1 - k. re ! j \<le> ra ! j))"
proof -
  obtain u d where fac: "find_dt_u_d r sigma T N = Inr (T / real N, u, d)"
    using assms(1,2) by (rule factors_exist)
  let ?disc = "exp (- r * (T / real N))"
  let ?price = "lattice_price S_0 u d"
  have disc: "0 \<le> ?disc" by simp
  have dom: "\<And>i j. spec_euro_V ?price ?disc E kind N i j \<le> spec_amer_V ?price ?disc E kind N i j"
    by (rule spec_V_dominance [OF disc])
  have root: "\<exists>va ex ve.
            find_amer_option_value S_0 r sigma T N E kind = Inr (Some va, ex) \<and>
            find_euro_option_value S_0 r sigma T N E kind = Inr (Some ve) \<and> ve \<le> va"
    unfolding find_amer_eq [OF fac assms(3)] find_euro_eq [OF fac assms(3)]
    using dom by simp
  have rows: "\<exists>ra ex re.
            amer_row_after k S_0 r sigma T N E kind = Inr (map Some ra, ex) \<and>
            euro_row_after k S_0 r sigma T N E kind = Inr (map Some re) \<and>
            length ra = N + 1 - k \<and> length re = N + 1 - k \<and>
            (\<forall>j<N + 1 - k. re ! j \<le> ra ! j)" if k: "k \<le> N" for k
  proof -
    let ?ra = "map (\<lambda>j. spec_amer_V ?price ?disc E kind N (N - k) j) [0..<Suc (N - k)]"
    let ?re = "map (\<lambda>j. spec_euro_V ?price ?disc E kind N (N - k) j) [0..<Suc (N - k)]"
    have len: "length ?ra = N + 1 - k" "length ?re = N + 1 - k"
      using k by simp_all
    have le: "\<forall>j<N + 1 - k. ?re ! j \<le> ?ra ! j"
      using k dom by (simp del: upt_Suc)
    show ?thesis
      using amer_row_after_eq [OF fac assms(3) k, of S_0 E]
        euro_row_after_eq [OF fac assms(3) k, of S_0 E] len le
      unfolding level_as_list by blast
  qed
  show ?thesis using root rows by blast
qed

theorem amer_dominates_euro_witness:
  "(\<exists>va ex ve.
      find_amer_option_value 100 (ln 2) (sqrt (ln (5 / 4))) 1 1 120 ''put'' = Inr (Some va, ex) \<and>
      find_euro_option_value 100 (ln 2) (sqrt (ln (5 / 4))) 1 1 120 ''put'' = Inr (Some ve) \<and>
      ve \<le> va) \<and>
   (\<exists>ra ex re.
      amer_row_after 1 100 (ln 2) (sqrt (ln (5 / 4))) 1 1 120 ''put'' = Inr (map Some ra, ex) \<and>
      euro_row_after 1 100 (ln 2) (sqrt (ln (5 / 4))) 1 1 120 ''put'' = Inr (map Some re) \<and>
      length ra = 1 \<and> length re = 1 \<and> re ! 0 \<le> ra ! 0)"
proof -
  have h: "(1::nat) \<le> 1" "(0::real) \<le> 1" "recognized ''put''"
    by (simp_all add: recognized_def)
  note t = amer_dominates_euro [OF h, of 100 "ln 2" "sqrt (ln (5 / 4))" 120]
  from t have root: "\<exists>va ex ve.
      find_amer_option_value 100 (ln 2) (sqrt (ln (5 / 4))) 1 1 120 ''put'' = Inr (Some va, ex) \<and>
      find_euro_option_value 100 (ln 2) (sqrt (ln (5 / 4))) 1 1 120 ''put'' = Inr (Some ve) \<and>
      ve \<le> va"
    by (rule conjunct1)
  from t have "\<forall>k\<le>1. \<exists>ra ex re.
      amer_row_after k 100 (ln 2) (sqrt (ln (5 / 4))) 1 1 120 ''put'' = Inr (map Some ra, ex) \<and>
      euro_row_after k 100 (ln 2) (sqrt (ln (5 / 4))) 1 1 120 ''put'' = Inr (map Some re) \<and>
      length ra = 1 + 1 - k \<and> length re = 1 + 1 - k \<and> (\<forall>j<1 + 1 - k. re ! j \<le> ra ! j)"
    by (rule conjunct2)
  then obtain ra ex re where
      "amer_row_after 1 100 (ln 2) (sqrt (ln (5 / 4))) 1 1 120 ''put'' = Inr (map Some ra, ex)"
      "euro_row_after 1 100 (ln 2) (sqrt (ln (5 / 4))) 1 1 120 ''put'' = Inr (map Some re)"
      "length ra = 1 + 1 - 1" "length re = 1 + 1 - 1" "\<forall>j<1 + 1 - (1::nat). re ! j \<le> ra ! j"
    by blast
  then have "amer_row_after 1 100 (ln 2) (sqrt (ln (5 / 4))) 1 1 120 ''put'' = Inr (map Some ra, ex) \<and>
      euro_row_after 1 100 (ln 2) (sqrt (ln (5 / 4))) 1 1 120 ''put'' = Inr (map Some re) \<and>
      length ra = 1 \<and> length re = 1 \<and> re ! 0 \<le> ra ! 0"
    by simp
  then show ?thesis
    using root by blast
qed

text \<open>
  C10. For each of the four option types the payoff is not negative, every value of
  every row held during the European and the American backward induction is not
  negative, and so are the two prices returned.
\<close>

theorem prices_nonnegative:
  assumes "1 \<le> N" "0 \<le> T" "recognized kind"
  shows "(\<exists>p. payoff S E kind = Some p \<and> 0 \<le> p) \<and>
         (\<forall>k\<le>N. \<exists>ra ex re.
            amer_row_after k S_0 r sigma T N E kind = Inr (map Some ra, ex) \<and>
            euro_row_after k S_0 r sigma T N E kind = Inr (map Some re) \<and>
            (\<forall>v\<in>set ra. 0 \<le> v) \<and> (\<forall>v\<in>set re. 0 \<le> v)) \<and>
         (\<exists>va ex ve.
            find_amer_option_value S_0 r sigma T N E kind = Inr (Some va, ex) \<and>
            find_euro_option_value S_0 r sigma T N E kind = Inr (Some ve) \<and>
            0 \<le> va \<and> 0 \<le> ve)"
proof -
  obtain u d where fac: "find_dt_u_d r sigma T N = Inr (T / real N, u, d)"
    using assms(1,2) by (rule factors_exist)
  let ?disc = "exp (- r * (T / real N))"
  let ?price = "lattice_price S_0 u d"
  have disc: "0 \<le> ?disc" by simp
  have pay: "\<exists>p. payoff S E kind = Some p \<and> 0 \<le> p"
    by (simp add: payoff_recognized [OF assms(3)] spec_payoff_nonneg)
  have root: "\<exists>va ex ve.
            find_amer_option_value S_0 r sigma T N E kind = Inr (Some va, ex) \<and>
            find_euro_option_value S_0 r sigma T N E kind = Inr (Some ve) \<and>
            0 \<le> va \<and> 0 \<le> ve"
    unfolding find_amer_eq [OF fac assms(3)] find_euro_eq [OF fac assms(3)]
    using spec_amer_V_nonneg [OF disc, of ?price E kind N 0 0]
      spec_euro_V_nonneg [OF disc, of ?price E kind N 0 0]
    by simp
  have rows: "\<exists>ra ex re.
            amer_row_after k S_0 r sigma T N E kind = Inr (map Some ra, ex) \<and>
            euro_row_after k S_0 r sigma T N E kind = Inr (map Some re) \<and>
            (\<forall>v\<in>set ra. 0 \<le> v) \<and> (\<forall>v\<in>set re. 0 \<le> v)" if k: "k \<le> N" for k
  proof -
    let ?ra = "map (\<lambda>j. spec_amer_V ?price ?disc E kind N (N - k) j) [0..<Suc (N - k)]"
    let ?re = "map (\<lambda>j. spec_euro_V ?price ?disc E kind N (N - k) j) [0..<Suc (N - k)]"
    have nn: "\<forall>v\<in>set ?ra. 0 \<le> v" "\<forall>v\<in>set ?re. 0 \<le> v"
      using spec_amer_V_nonneg [OF disc] spec_euro_V_nonneg [OF disc]
      by (auto simp del: upt_Suc)
    show ?thesis
      using amer_row_after_eq [OF fac assms(3) k, of S_0 E]
        euro_row_after_eq [OF fac assms(3) k, of S_0 E] nn
      unfolding level_as_list by blast
  qed
  show ?thesis using pay root rows by blast
qed

theorem prices_nonnegative_witness:
  "(\<exists>p. payoff 100 120 ''put'' = Some p \<and> 0 \<le> p) \<and>
   (\<exists>va ex ve.
      find_amer_option_value 100 (ln 2) (sqrt (ln (5 / 4))) 1 1 120 ''put'' = Inr (Some va, ex) \<and>
      find_euro_option_value 100 (ln 2) (sqrt (ln (5 / 4))) 1 1 120 ''put'' = Inr (Some ve) \<and>
      0 \<le> va \<and> 0 \<le> ve)"
proof -
  have h: "(1::nat) \<le> 1" "(0::real) \<le> 1" "recognized ''put''"
    by (simp_all add: recognized_def)
  show ?thesis
    using prices_nonnegative [OF h, of 100 120 100 "ln 2" "sqrt (ln (5 / 4))"]
    by blast
qed

section \<open>Put-call parity on the lattice\<close>

text \<open>
  The two factors average to \<open>exp(r*dt)\<close>, so the discounted mean of the two successor
  prices of a node is the price of the node; the payoffs of a call and a put differ by
  \<open>S - E\<close>. Hence the difference of the two value lattices is known in closed form.
\<close>

lemma factors_sum:
  assumes "find_dt_u_d r sigma T N = Inr (dt, u, d)"
  shows "u + d = 2 * exp (r * dt)"
proof (cases "N = 0")
  case True
  with assms show ?thesis by (simp add: find_dt_u_d_def)
next
  case False
  with assms show ?thesis
    by (auto simp: find_dt_u_d_def Let_def algebra_simps split: if_splits)
qed

lemma lattice_price_mean:
  assumes "j \<le> i"
  shows "lattice_price S_0 u d (Suc i) j + lattice_price S_0 u d (Suc i) (Suc j) =
         lattice_price S_0 u d i j * (u + d)"
proof -
  have "Suc i - j = Suc (i - j)" using assms by simp
  then show ?thesis
    by (simp add: lattice_price_def algebra_simps)
qed

lemma spec_payoff_parity: "spec_payoff S E ''call'' - spec_payoff S E ''put'' = S - E"
  by (simp add: spec_payoff_def max_def)

lemma spec_euro_V_parity:
  assumes mean: "disc * ((u + d) / 2) = 1"
  shows "i \<le> N \<Longrightarrow> j \<le> i \<Longrightarrow>
     spec_euro_V (lattice_price S_0 u d) disc E ''call'' N i j -
     spec_euro_V (lattice_price S_0 u d) disc E ''put'' N i j =
     lattice_price S_0 u d i j - E * disc ^ (N - i)"
proof (induction n \<equiv> "N - i" arbitrary: i j)
  case 0
  then have "i = N" by simp
  then show ?case by (simp add: spec_V_beyond spec_payoff_parity)
next
  case (Suc n)
  then have i: "i < N" and n: "n = N - Suc i" and le: "Suc i \<le> N" by auto
  let ?c = "spec_euro_V (lattice_price S_0 u d) disc E ''call'' N"
  let ?p = "spec_euro_V (lattice_price S_0 u d) disc E ''put'' N"
  let ?P = "lattice_price S_0 u d"
  have a: "?c (Suc i) j - ?p (Suc i) j = ?P (Suc i) j - E * disc ^ (N - Suc i)"
    using Suc.prems by (intro Suc.hyps(1) [OF n le]) simp
  have b: "?c (Suc i) (Suc j) - ?p (Suc i) (Suc j) = ?P (Suc i) (Suc j) - E * disc ^ (N - Suc i)"
    using Suc.prems by (intro Suc.hyps(1) [OF n le]) simp
  have "N - i = Suc (N - Suc i)"
    using i by arith
  then have pw: "disc ^ (N - i) = disc * disc ^ (N - Suc i)"
    by (simp only: power_Suc)
  have "?c i j - ?p i j =
        disc * 0.5 * ((?c (Suc i) j - ?p (Suc i) j) + (?c (Suc i) (Suc j) - ?p (Suc i) (Suc j)))"
    by (simp add: spec_euro_V_step [OF i] hold_value_def algebra_simps)
  also have "\<dots> = disc * 0.5 * ((?P (Suc i) j + ?P (Suc i) (Suc j)) - 2 * (E * disc ^ (N - Suc i)))"
    unfolding a b by (simp add: algebra_simps)
  also have "\<dots> = ?P i j * (disc * ((u + d) / 2)) - E * disc ^ (N - i)"
    unfolding lattice_price_mean [OF Suc.prems(2)] pw by (simp add: algebra_simps)
  finally show ?case
    unfolding mean by simp
qed

lemma discount_power:
  assumes "0 < N"
  shows "exp (- r * (T / real N)) ^ N = exp (- r * T)"
proof -
  have "exp (- r * (T / real N)) ^ N = exp (real N * (- r * (T / real N)))"
    by (simp only: exp_of_nat_mult)
  also have "real N * (- r * (T / real N)) = - r * T"
    using assms by simp
  finally show ?thesis .
qed

text \<open>
  C5. For a European call and put priced by \<open>find_euro_option_value\<close> on the same
  input, with at least one step, the difference of the two lattice prices is
  \<open>S0 - E * exp(-r*T)\<close>. Over the reals the parity holds exactly for every number of
  steps, so the discretisation error of the difference is zero and the convergence as
  the number of steps grows is immediate.
\<close>

theorem put_call_parity:
  assumes "1 \<le> N" "0 \<le> T"
  shows "\<exists>c p. find_euro_option_value S_0 r sigma T N E ''call'' = Inr (Some c) \<and>
               find_euro_option_value S_0 r sigma T N E ''put'' = Inr (Some p) \<and>
               c - p = S_0 - E * exp (- r * T)"
proof -
  obtain u d where fac: "find_dt_u_d r sigma T N = Inr (T / real N, u, d)"
    using assms by (rule factors_exist)
  let ?dt = "T / real N"
  let ?disc = "exp (- r * ?dt)"
  have "?disc * exp (r * ?dt) = 1"
    by (simp add: exp_minus)
  then have mean: "?disc * ((u + d) / 2) = 1"
    unfolding factors_sum [OF fac] by simp
  have kinds: "recognized ''call''" "recognized ''put''"
    by (simp_all add: recognized_def)
  have "spec_euro_V (lattice_price S_0 u d) ?disc E ''call'' N 0 0 -
        spec_euro_V (lattice_price S_0 u d) ?disc E ''put'' N 0 0 =
        lattice_price S_0 u d 0 0 - E * ?disc ^ (N - 0)"
    by (rule spec_euro_V_parity [OF mean]) simp_all
  also have "\<dots> = S_0 - E * exp (- r * T)"
    using assms(1) by (simp only: diff_zero discount_power) (simp add: lattice_price_def)
  finally show ?thesis
    unfolding find_euro_eq [OF fac kinds(1)] find_euro_eq [OF fac kinds(2)] by simp
qed

theorem put_call_parity_witness:
  "\<exists>c p. find_euro_option_value 100 (ln 2) (sqrt (ln (5 / 4))) 1 1 120 ''call'' = Inr (Some c) \<and>
         find_euro_option_value 100 (ln 2) (sqrt (ln (5 / 4))) 1 1 120 ''put'' = Inr (Some p) \<and>
         c - p = 40"
proof -
  have h: "(1::nat) \<le> 1" "(0::real) \<le> 1" by simp_all
  obtain c p where
      c: "find_euro_option_value 100 (ln 2) (sqrt (ln (5 / 4))) 1 1 120 ''call'' = Inr (Some c)"
    and p: "find_euro_option_value 100 (ln 2) (sqrt (ln (5 / 4))) 1 1 120 ''put'' = Inr (Some p)"
    and d: "c - p = 100 - 120 * exp (- ln 2 * 1)"
    using put_call_parity [OF h, of 100 "ln 2" "sqrt (ln (5 / 4))" 120] by blast
  have "c - p = 40"
    unfolding d example_discount by simp
  with c p show ?thesis by blast
qed

section \<open>The no-arbitrage bound of the factors\<close>

text \<open>
  C6, as amended. For \<open>sigma > 0\<close>, \<open>T > 0\<close> and at least one step the factors returned
  by \<open>find_dt_u_d\<close> satisfy \<open>d < exp(r*T/N) < u\<close>. With \<open>T = 0\<close>, which the claim
  admits, the two factors coincide and the bound is not strict.
\<close>

theorem factors_no_arbitrage:
  assumes "0 < sigma" "0 < T" "1 \<le> N"
  shows "\<exists>dt u d. find_dt_u_d r sigma T N = Inr (dt, u, d) \<and>
           d < exp (r * T / real N) \<and> exp (r * T / real N) < u"
proof -
  let ?dt = "T / real N"
  let ?A = "exp ((sigma ^ 2) * ?dt) - 1"
  let ?B = "exp (r * ?dt)"
  have fac: "find_dt_u_d r sigma T N = Inr (?dt, ?B * (1 + sqrt ?A), ?B * (1 - sqrt ?A))"
    using assms by (intro find_dt_u_d_value) simp_all
  have "0 < (sigma ^ 2) * ?dt"
    using assms by simp
  then have "0 < ?A" by simp
  then have s: "0 < sqrt ?A" by simp
  have B: "0 < ?B" by simp
  have lo: "?B * (1 - sqrt ?A) < ?B * 1"
    using s B by (intro mult_strict_left_mono) simp_all
  have hi: "?B * 1 < ?B * (1 + sqrt ?A)"
    using s B by (intro mult_strict_left_mono) simp_all
  have "r * T / real N = r * ?dt" by simp
  then show ?thesis
    using fac lo hi by (simp only: mult_1_right) blast
qed

theorem factors_no_arbitrage_witness:
  "\<exists>dt u d. find_dt_u_d (ln 2) (sqrt (ln (5 / 4))) 1 1 = Inr (dt, u, d) \<and>
     d < exp (ln 2 * 1 / real (1::nat)) \<and> exp (ln 2 * 1 / real (1::nat)) < u"
proof -
  have h: "0 < sqrt (ln (5 / 4 :: real))" "(0::real) < 1" "(1::nat) \<le> 1"
    by simp_all
  show ?thesis
    using factors_no_arbitrage [OF h, of "ln 2"] .
qed

text \<open>
  At \<open>r = 0\<close>, \<open>sigma = 1\<close>, \<open>T = 0\<close> and one step the factors are \<open>u = d = 1 = exp(r*T/N)\<close>.
\<close>

theorem factors_equal_at_zero_time:
  "find_dt_u_d 0 1 0 1 = Inr (0, 1, 1) \<and>
   \<not> ((1::real) < exp (0 * 0 / real (1::nat))) \<and>
   \<not> (exp (0 * 0 / real (1::nat)) < (1::real))"
  by (simp add: find_dt_u_d_def)

section \<open>Degenerate inputs\<close>

text \<open>
  With no time to expiry the factors are both 1, the price lattice is flat and every
  value of both lattices is the payoff at \<open>S0\<close>. With no steps the first statement of
  either pricing function divides by zero.
\<close>

lemma zero_steps_raise:
  "find_euro_option_value S_0 r sigma T 0 E kind = Inl ZeroDivisionError"
  "find_amer_option_value S_0 r sigma T 0 E kind = Inl ZeroDivisionError"
  by (simp_all add: find_euro_option_value_def find_amer_option_value_def find_dt_u_d_def)

lemma zero_time_factors: "0 < N \<Longrightarrow> find_dt_u_d r sigma 0 N = Inr (0, 1, 1)"
  by (simp add: find_dt_u_d_def)

lemma hold_value_same: "hold_value 1 p p = p"
  by (simp add: hold_value_def)

lemma spec_euro_V_flat:
  "spec_euro_V (\<lambda>i j. s) 1 E kind N i j = spec_payoff s E kind"
proof (induction n \<equiv> "N - i" arbitrary: i j)
  case 0
  then have "N \<le> i" by simp
  then show ?case by (simp add: spec_V_beyond)
next
  case (Suc n)
  then have i: "i < N" and n: "n = N - Suc i" by auto
  show ?case
    unfolding spec_euro_V_step [OF i] Suc.hyps(1) [OF n] by (rule hold_value_same)
qed

lemma spec_amer_V_flat:
  "spec_amer_V (\<lambda>i j. s) 1 E kind N i j = spec_payoff s E kind"
proof (induction n \<equiv> "N - i" arbitrary: i j)
  case 0
  then have "N \<le> i" by simp
  then show ?case by (simp add: spec_V_beyond)
next
  case (Suc n)
  then have i: "i < N" and n: "n = N - Suc i" by auto
  show ?case
    unfolding spec_amer_V_step [OF i] spec_amer_hold_def
    by (simp add: Suc.hyps(1) [OF n] hold_value_same)
qed

lemma flat_lattice: "lattice_price S_0 1 1 = (\<lambda>i j. S_0)"
  by (simp add: lattice_price_def fun_eq_iff)

lemma zero_time_values:
  assumes "1 \<le> N" "recognized kind"
  shows "find_euro_option_value S_0 r sigma 0 N E kind = Inr (payoff S_0 E kind)"
    and "find_amer_option_value S_0 r sigma 0 N E kind = Inr (payoff S_0 E kind, False)"
proof -
  have fac: "find_dt_u_d r sigma 0 N = Inr (0, 1, 1)"
    using assms(1) by (intro zero_time_factors) simp
  have disc: "exp (- r * 0) = (1::real)" by simp
  show "find_euro_option_value S_0 r sigma 0 N E kind = Inr (payoff S_0 E kind)"
    unfolding find_euro_eq [OF fac assms(2)] disc flat_lattice spec_euro_V_flat
    by (simp add: payoff_recognized [OF assms(2)])
  have N: "0 < N" using assms(1) by simp
  have flag: "amer_flag (\<lambda>i j. S_0) 1 E kind N 0 0 = False"
    by (simp add: amer_flag_def spec_amer_hold_def spec_amer_V_flat hold_value_same)
  show "find_amer_option_value S_0 r sigma 0 N E kind = Inr (payoff S_0 E kind, False)"
    unfolding find_amer_eq [OF fac assms(2)] disc flat_lattice spec_amer_V_flat flag
    by (simp add: payoff_recognized [OF assms(2)])
qed

text \<open>
  C7, as amended. With \<open>T = 0\<close>, at least one step and one of the four option types,
  \<open>find_euro_option_value\<close> returns \<open>payoff(S0, E, kind)\<close> and
  \<open>find_amer_option_value\<close> returns that value with the flag \<open>False\<close>. With
  \<open>steps = 0\<close> neither function returns a value: both raise \<open>ZeroDivisionError\<close> in
  \<open>dt = T/steps\<close>, whatever the other arguments.
\<close>

theorem degenerate_inputs:
  "find_euro_option_value S_0 r sigma T 0 E kind = Inl ZeroDivisionError \<and>
   find_amer_option_value S_0 r sigma T 0 E kind = Inl ZeroDivisionError \<and>
   (1 \<le> N \<longrightarrow> recognized kind \<longrightarrow>
      find_euro_option_value S_0 r sigma 0 N E kind = Inr (payoff S_0 E kind) \<and>
      find_amer_option_value S_0 r sigma 0 N E kind = Inr (payoff S_0 E kind, False))"
  using zero_steps_raise [of S_0 r sigma T E kind] zero_time_values [of N kind S_0 r sigma E]
  by blast

theorem degenerate_inputs_witness:
  "find_euro_option_value 100 (1 / 25) (1 / 5) 0 3 120 ''put'' = Inr (Some 20) \<and>
   find_amer_option_value 100 (1 / 25) (1 / 5) 0 3 120 ''put'' = Inr (Some 20, False) \<and>
   find_euro_option_value 100 (1 / 25) (1 / 5) 1 0 120 ''put'' = Inl ZeroDivisionError"
proof -
  have h: "(1::nat) \<le> 3" "recognized ''put''"
    by (simp_all add: recognized_def)
  have p: "payoff 100 120 ''put'' = Some 20"
    by (simp add: payoff_def)
  show ?thesis
    using degenerate_inputs [of 100 "1 / 25" "1 / 5" 1 120 "''put''" 3] h
    unfolding p by blast
qed

text \<open>
  The claim as stated fails at \<open>steps = 0\<close>: for \<open>S0 = 130\<close>, \<open>E = 100\<close> and a call the
  payoff at \<open>S0\<close> is 30, and both pricing functions raise instead of returning it.
\<close>

theorem zero_steps_counterexample:
  "find_euro_option_value 130 0 1 1 0 100 ''call'' = Inl ZeroDivisionError \<and>
   find_amer_option_value 130 0 1 1 0 100 ''call'' = Inl ZeroDivisionError \<and>
   payoff 130 100 ''call'' = Some 30"
  by (simp add: find_euro_option_value_def find_amer_option_value_def find_dt_u_d_def payoff_def)

section \<open>Inputs the specification calls invalid\<close>

text \<open>
  The volatility enters the factors only as \<open>sigma ** 2\<close>, so its sign is immaterial and
  a volatility of zero gives \<open>u = d = exp(r*dt)\<close>. An option type that is not one of the
  four makes \<open>payoff\<close> return \<open>None\<close>; the first addition of the backward induction
  then raises a \<open>TypeError\<close>.
\<close>

lemma factors_sign: "find_dt_u_d r sigma T N = find_dt_u_d r (- sigma) T N"
  by (simp add: find_dt_u_d_def)

lemma upt_front: "[0..<Suc (Suc n)] = 0 # Suc 0 # [Suc (Suc 0)..<Suc (Suc n)]"
  by (simp add: upt_conv_Cons)

lemma unrecognized_row:
  assumes "\<not> recognized kind"
  shows "\<exists>rest. map (\<lambda>value. payoff value E kind) (map (\<lambda>j. price (Suc n) j) [0..<Suc (Suc n)]) =
           None # None # rest"
  unfolding upt_front by (simp add: payoff_unrecognized [OF assms])

lemma euro_loop_None: "euro_loop (Suc n) disc (None # None # rest) = Inl TypeError"
  by simp

lemma amer_loop_None:
  "amer_loop (Suc n) 0 (price_tree price (Suc n)) disc E kind ex (None # None # rest) = Inl TypeError"
proof -
  have idx: "int (length (price_tree price (Suc n))) - 2 - int 0 = int n"
    by (simp add: price_tree_length)
  have get: "py_get (price_tree price (Suc n)) (int (length (price_tree price (Suc n))) - 2 - int 0) =
             Inr (price_tree price (Suc n) ! n)"
    unfolding idx by (rule py_get_nat) (simp add: price_tree_length)
  show ?thesis
    by (simp only: amer_loop.simps get sum.case amer_new_row.simps prod.case option.case)
qed

lemma unrecognized_raise:
  assumes "1 \<le> N" "0 \<le> T" "\<not> recognized kind"
  shows "find_euro_option_value S_0 r sigma T N E kind = Inl TypeError"
    and "find_amer_option_value S_0 r sigma T N E kind = Inl TypeError"
proof -
  obtain u d where fac: "find_dt_u_d r sigma T N = Inr (T / real N, u, d)"
    using assms(1,2) by (rule factors_exist)
  obtain n where N: "N = Suc n"
    using assms(1) by (cases N) auto
  let ?price = "lattice_price S_0 u d"
  obtain rest where row:
    "map (\<lambda>value. payoff value E kind) (map (\<lambda>j. ?price (Suc n) j) [0..<Suc (Suc n)]) =
       None # None # rest"
    using unrecognized_row [OF assms(3), of E ?price n] by (rule exE)
  note fac' = fac [unfolded N]
  show "find_euro_option_value S_0 r sigma T N E kind = Inl TypeError"
    unfolding find_euro_option_value_def N
    by (simp only: fac' produce_tree_eq [OF fac'] final_row_eq sum.case prod.case row euro_loop_None)
  show "find_amer_option_value S_0 r sigma T N E kind = Inl TypeError"
    unfolding find_amer_option_value_def N
    by (simp only: fac' produce_tree_eq [OF fac'] final_row_eq sum.case prod.case row amer_loop_None)
qed

text \<open>
  C8, as amended. No input is rejected before the computation begins. With at least one
  step and \<open>T \<ge> 0\<close>: for \<open>sigma \<le> 0\<close> the function \<open>find_dt_u_d\<close> returns the factors
  it returns for \<open>-sigma\<close>, and for each of the four option types both pricing functions
  return a price; for any other option type \<open>payoff\<close> returns \<open>None\<close> without raising,
  and both pricing functions raise a \<open>TypeError\<close> in the first step of the backward
  induction.
\<close>

theorem no_parameter_validation:
  assumes "1 \<le> N" "0 \<le> T"
  shows "(sigma \<le> 0 \<longrightarrow>
            find_dt_u_d r sigma T N = find_dt_u_d r (- sigma) T N \<and>
            (\<exists>dt u d. find_dt_u_d r sigma T N = Inr (dt, u, d)) \<and>
            (recognized kind \<longrightarrow>
               (\<exists>v. find_euro_option_value S_0 r sigma T N E kind = Inr (Some v)) \<and>
               (\<exists>v ex. find_amer_option_value S_0 r sigma T N E kind = Inr (Some v, ex)))) \<and>
         (\<not> recognized kind \<longrightarrow>
            payoff S E kind = None \<and>
            find_euro_option_value S_0 r sigma T N E kind = Inl TypeError \<and>
            find_amer_option_value S_0 r sigma T N E kind = Inl TypeError)"
proof -
  obtain u d where fac: "find_dt_u_d r sigma T N = Inr (T / real N, u, d)"
    using assms by (rule factors_exist)
  have a: "find_dt_u_d r sigma T N = find_dt_u_d r (- sigma) T N"
    by (rule factors_sign)
  have b: "\<exists>dt u d. find_dt_u_d r sigma T N = Inr (dt, u, d)"
    using fac by blast
  have c: "recognized kind \<longrightarrow>
               (\<exists>v. find_euro_option_value S_0 r sigma T N E kind = Inr (Some v)) \<and>
               (\<exists>v ex. find_amer_option_value S_0 r sigma T N E kind = Inr (Some v, ex))"
    using find_euro_eq [OF fac] find_amer_eq [OF fac] by blast
  have d: "\<not> recognized kind \<longrightarrow>
            payoff S E kind = None \<and>
            find_euro_option_value S_0 r sigma T N E kind = Inl TypeError \<and>
            find_amer_option_value S_0 r sigma T N E kind = Inl TypeError"
    using payoff_unrecognized unrecognized_raise [OF assms] by blast
  show ?thesis using a b c d by blast
qed

theorem no_parameter_validation_witness:
  "find_dt_u_d 0 (- 1) 1 1 = find_dt_u_d 0 (- (- 1)) 1 1 \<and>
   (\<exists>v. find_euro_option_value 130 0 (- 1) 1 1 100 ''call'' = Inr (Some v)) \<and>
   payoff 130 100 ''straddle'' = None \<and>
   find_euro_option_value 130 0 (- 1) 1 1 100 ''straddle'' = Inl TypeError \<and>
   find_amer_option_value 130 0 (- 1) 1 1 100 ''straddle'' = Inl TypeError"
proof -
  have h: "(1::nat) \<le> 1" "(0::real) \<le> 1" by simp_all
  have k: "(- 1 :: real) \<le> 0" "recognized ''call''" "\<not> recognized ''straddle''"
    by (simp_all add: recognized_def)
  show ?thesis
    using no_parameter_validation [OF h, of "- 1" 0 "''call''" 130 100 130]
      no_parameter_validation [OF h, of "- 1" 0 "''straddle''" 130 100 130] k
    by blast
qed

text \<open>
  The claim as stated fails at \<open>sigma = 0\<close>, where a price is returned, and at the option
  type \<open>straddle\<close>, where \<open>payoff\<close> returns \<open>None\<close> and raises nothing.
\<close>

theorem zero_volatility_counterexample:
  "find_dt_u_d 0 0 1 1 = Inr (1, 1, 1) \<and>
   find_euro_option_value 130 0 0 1 1 100 ''call'' = Inr (Some 30) \<and>
   payoff 130 100 ''straddle'' = None"
proof -
  have fac: "find_dt_u_d 0 0 1 1 = Inr (1, 1, 1)"
    by (simp add: find_dt_u_d_def)
  have kind: "recognized ''call''"
    by (simp add: recognized_def)
  have "find_euro_option_value 130 0 0 1 1 100 ''call'' = Inr (Some 30)"
    unfolding find_euro_eq [OF fac kind] example_lattice_euro
    by (simp add: hold_value_def lattice_price_def spec_payoff_def)
  then show ?thesis
    using fac by (simp add: payoff_def)
qed

section \<open>The time derivative of the finite-difference solver\<close>

lemma upt_unfold: "[m..<n] = (if m < n then m # [Suc m..<n] else [])"
  by (simp add: upt_rec)

lemma example_dVdS:
  "find_dVdS [0, 0, 10, 10, 0] [100, 102, 104, 106, 108] = Inr [0, 5, 0, - 5, - 10]"
  by (simp add: find_dVdS_def bind_err_def py_get_def py_div_def Let_def upt_unfold)

lemma example_d2VdS2:
  "find_d2VdS2 [0, 0, 10, 10, 0] [100, 102, 104, 106, 108] = Inr [15, 5, - 5, - 5, - 5]"
  by (simp add: find_d2VdS2_def bind_err_def py_get_def py_div_def Let_def upt_unfold)

lemma example_dVdt:
  "find_dVdt [0, 0, 10, 10, 0] [100, 102, 104, 106, 108] 1 2 =
     Inr [- 3000, - 1530, 1050, 1600, 2160]"
  unfolding find_dVdt_def example_dVdS example_d2VdS2
  by (simp add: bind_err_def py_get_def upt_unfold)

text \<open>
  C4. The claim: at every grid point
  \<open>dV/dt[i] = r*V[i] - r*S[i]*dVdS[i] - 0.5*sigma^2*S[i]^2*d2VdS2[i]\<close>, with the second
  derivative a second difference divided by the squared spacing. The source multiplies
  the last term by \<open>S\<close>, not by its square, and divides the second difference by the
  spacing, not by its square. On the grid 100, 102, ..., 108 with the values
  0, 0, 10, 10, 0, \<open>r = 1\<close> and \<open>sigma = 2\<close>, the source gives -1530 at index 1; the
  formula of the claim gives -104550 on the derivative lists of the source, and -52530
  with the second difference divided by the squared spacing.
\<close>

theorem dVdt_misses_squares:
  "find_dVdS [0, 0, 10, 10, 0] [100, 102, 104, 106, 108] = Inr [0, 5, 0, - 5, - 10] \<and>
   find_d2VdS2 [0, 0, 10, 10, 0] [100, 102, 104, 106, 108] = Inr [15, 5, - 5, - 5, - 5] \<and>
   find_dVdt [0, 0, 10, 10, 0] [100, 102, 104, 106, 108] 1 2 =
     Inr [- 3000, - 1530, 1050, 1600, 2160] \<and>
   spec_dVdt 1 2 0 102 5 5 = - 104550 \<and>
   spec_d2VdS2 0 0 10 (104 - 102) = 5 / 2 \<and>
   spec_dVdt 1 2 0 102 5 (spec_d2VdS2 0 0 10 (104 - 102)) = - 52530"
  unfolding example_dVdS example_d2VdS2 example_dVdt
  by (simp add: spec_dVdt_def spec_d2VdS2_def)

section \<open>Claims about the payoff function\<close>

text \<open>
  C9. For every stock price \<open>S\<close> and exercise price \<open>E\<close> the payoff is \<open>max(S - E, 0)\<close>
  for a call, \<open>max(E - S, 0)\<close> for a put, 10 if \<open>S > E\<close> and 0 otherwise for a
  cash-or-nothing call, 10 if \<open>E > S\<close> and 0 otherwise for a cash-or-nothing put; at
  \<open>S = E\<close> it is 0 for all four kinds.
\<close>

theorem payoff_formulas:
  "payoff S E ''call'' = Some (max (S - E) 0) \<and>
   payoff S E ''put'' = Some (max (E - S) 0) \<and>
   payoff S E ''cash_or_nothing_call'' = Some (if S > E then 10 else 0) \<and>
   payoff S E ''cash_or_nothing_put'' = Some (if E > S then 10 else 0) \<and>
   payoff E E ''call'' = Some 0 \<and>
   payoff E E ''put'' = Some 0 \<and>
   payoff E E ''cash_or_nothing_call'' = Some 0 \<and>
   payoff E E ''cash_or_nothing_put'' = Some 0"
  by (simp add: payoff_def max_def)

theorem payoff_formulas_witness:
  "payoff 130 120 ''call'' = Some 10 \<and>
   payoff 130 120 ''put'' = Some 0 \<and>
   payoff 130 120 ''cash_or_nothing_call'' = Some 10 \<and>
   payoff 130 120 ''cash_or_nothing_put'' = Some 0 \<and>
   payoff 120 120 ''call'' = Some 0"
  using payoff_formulas [of 130 120] payoff_formulas [of 120 120] by simp

end
